theory Spec2Isabelle
  imports Main
begin

section \<open>Data model of server.py\<close>

text \<open>
  The server is Python 2 code (\<^verbatim>\<open>unicode\<close>, \<^verbatim>\<open>line.decode\<close> on a received line). The Reader
  appends the received byte string to a unicode buffer, which decodes it as ASCII, so every
  text that reaches a command queue is an ASCII string: \<^typ>\<open>string\<close> holds it, and
  \<^verbatim>\<open>isdigit\<close> and \<^verbatim>\<open>int\<close> are the ASCII ones.
\<close>

datatype error = KeyError string | ValueError | AttributeError | IndexError

text \<open>An element of a command queue is a Python dict with string keys and values.\<close>

type_synonym item = "(string \<times> string) list"

text \<open>Lines 100, 106, 143 and 153: the dict the Reader and the Heartbeat task put on failure.\<close>

definition disconnect_item :: item where
  "disconnect_item = [(''type'', ''DISCONNECT'')]"

text \<open>Line 119: the dict the Reader puts for a line that is not the heartbeat acknowledgement.\<close>

definition command_item :: "string \<Rightarrow> item" where
  "command_item text = [(''type'', ''COMMAND''), (''data'', text)]"

text \<open>
  What one call \<^verbatim>\<open>cmd_queue.get()\<close> yields to the Turn Engine: a dict, or an exception
  (the \<^verbatim>\<open>except Exception\<close> branches around the reads).
\<close>

datatype get_obs = Got item | GetRaised

text \<open>The messages of the wire protocol, one constructor for each format string.\<close>

datatype msg =
    FULL
  | HEARTBEAT
  | HAND "string list" "string list"
  | STATUS string
  | TOOL
  | USED_TOOL string
  | OPP_TOOL string string
  | POS
  | POS_RESULT int string
  | SHUFFLE_RESULT string
  | EXCLUDE_RESULT string
  | DOUBLE_ACTIVE
  | RESHUFFLE_DONE
  | GUESS "string list"
  | RESULT int int
  | OPP_GUESS string string int int
  | WINNER string
  | DRAW

text \<open>
  A Player object. Each one owns one socket, so the socket's number stands for the object's
  identity (\<^verbatim>\<open>is\<close>, \<^verbatim>\<open>in\<close>, \<^verbatim>\<open>remove\<close>). \<open>cmd_queue\<close> is the sequence of results the
  coming \<^verbatim>\<open>get()\<close> calls on this player's queue will have; when it is used up the engine
  is blocked in \<^verbatim>\<open>get()\<close>.
\<close>

record player =
  sock :: nat
  name :: string
  number_hand :: "string list"
  tool_hand :: "string list"
  answer :: "string list"
  cmd_queue :: "get_obs list"

record game =
  MAX_ROUNDS :: int
  NUM_GUESS_DIGITS :: int
  number_deck :: "string list"
  discard_number :: "string list"
  discard_tool :: "string list"

text \<open>
  What the server does to the outside: a send on a socket, the close of a socket, a put on a
  player's command queue, the spawn of a task.
\<close>

datatype action =
    Send nat msg
  | Close nat
  | Put nat item
  | Spawn_heartbeat nat
  | Spawn_reader nat

text \<open>
  The state the ConnectionManager and the GameHost share: \<open>players\<close> is the one roster list
  both hold a reference to; \<open>game\<close> and \<open>max_rounds\<close> are run\_game's locals
  \<^verbatim>\<open>game\<close> and \<^verbatim>\<open>MAX_ROUNDS\<close>.
\<close>

record state =
  players :: "player list"
  start_event :: bool
  end_event :: bool
  game :: game
  max_rounds :: int
  trace :: "action list"

text \<open>
  The game model (package.game, package.player) is not part of the source; the engine takes
  it as a parameter. Random choices are whatever the functions given return.
\<close>

record ext =
  new_game :: "player list \<Rightarrow> game \<times> player list"
  draw_up :: "game \<Rightarrow> string list \<Rightarrow> string list \<Rightarrow> game \<times> string list \<times> string list"
  check_guess :: "string list \<Rightarrow> string list \<Rightarrow> int \<times> int"
  tool_shuffle :: "string list \<Rightarrow> string list"
  tool_exclude :: "string list \<Rightarrow> string"
  tool_reshuffle :: "string list \<Rightarrow> string list \<Rightarrow> string list \<times> string list"

section \<open>ConnectionManager\<close>

subsection \<open>serve\_forever\<close>

text \<open>
  One result of \<^verbatim>\<open>listener.accept()\<close>: it raises, or it returns a socket. The flag says
  whether \<^verbatim>\<open>sendall\<close> on that socket raises; nothing in the loop catches that.
\<close>

datatype conn = AcceptRaised | Accepted nat bool

datatype loop_status = Accepting | Stopped | Died

text \<open>
  \<open>new_player\<close> is the constructor \<^verbatim>\<open>Player(name)\<close> applied to the name made of the
  player's number; the loop then sets the socket and the two empty queues.
\<close>

fun serve_forever :: "(nat \<Rightarrow> player) \<Rightarrow> conn list \<Rightarrow> state \<Rightarrow> loop_status \<times> state" where
  "serve_forever new_player [] s = (Accepting, s)"
| "serve_forever new_player (AcceptRaised # cs) s = (Stopped, s)"
| "serve_forever new_player (Accepted c raises # cs) s =
     (if length (players s) \<ge> 2 then
        (let s1 = s\<lparr>trace := trace s @ [Send c FULL]\<rparr>
         in if raises then (Died, s1) else serve_forever new_player cs s1)
      else
        (let player_id = length (players s) + 1;
             player_obj = (new_player player_id)\<lparr>sock := c, cmd_queue := []\<rparr>;
             s1 = s\<lparr>players := players s @ [player_obj]\<rparr>;
             s2 = s1\<lparr>trace := trace s1 @ [Spawn_heartbeat c, Spawn_reader c]\<rparr>;
             s3 = (if length (players s2) = 2 then s2\<lparr>start_event := True\<rparr> else s2)
         in serve_forever new_player cs s3))"

text \<open>The sends a run of the loop makes when every connection finds the roster full.\<close>

fun full_notices :: "conn list \<Rightarrow> action list" where
  "full_notices [] = []"
| "full_notices (AcceptRaised # cs) = []"
| "full_notices (Accepted c raises # cs) =
     Send c FULL # (if raises then [] else full_notices cs)"

subsection \<open>send\_to\<close>

datatype send_outcome = SendOk | SocketError | OtherError

text \<open>
  \<^verbatim>\<open>send_to\<close> catches \<^verbatim>\<open>socket.error\<close> (and closes the socket) and every other
  \<^verbatim>\<open>Exception\<close>: the first component says whether an exception leaves the call, and it
  never does.
\<close>

definition send_to :: "send_outcome \<Rightarrow> nat \<Rightarrow> msg \<Rightarrow> bool \<times> action list" where
  "send_to outcome p m =
     (False, Send p m # (if outcome = SocketError then [Close p] else []))"

subsection \<open>\_heartbeat\<close>

datatype wait_outcome = Ack | TimedOut | WaitRaised

datatype task_status = Running | Finished | Killed

text \<open>
  One element of the list is what one iteration observes: whether \<open>end_event\<close> is set at the
  loop test, how the send ends, how the bounded wait on the heartbeat queue ends.
  gevent is not part of the source: \<open>timeout_is_exception\<close> says whether the timeout it
  raises is an instance of \<^verbatim>\<open>Exception\<close>, which is what \<^verbatim>\<open>except Exception\<close> catches;
  when it is not, the timeout leaves the task before the close after the loop.
\<close>

fun heartbeat :: "bool \<Rightarrow> nat \<Rightarrow> (bool \<times> send_outcome \<times> wait_outcome) list
    \<Rightarrow> task_status \<times> action list" where
  "heartbeat timeout_is_exception p [] = (Running, [])"
| "heartbeat timeout_is_exception p ((end_is_set, sent, waited) # rest) =
     (if end_is_set then (Finished, [Close p])
      else
        (case send_to sent p HEARTBEAT of
           (True, acts) \<Rightarrow> (Finished, acts @ [Put p disconnect_item, Close p])
         | (False, acts) \<Rightarrow>
             (case waited of
                Ack \<Rightarrow>
                  (case heartbeat timeout_is_exception p rest of
                     (status, later) \<Rightarrow> (status, acts @ later))
              | WaitRaised \<Rightarrow> (Finished, acts @ [Put p disconnect_item, Close p])
              | TimedOut \<Rightarrow>
                  (if timeout_is_exception
                   then (Finished, acts @ [Put p disconnect_item, Close p])
                   else (Killed, acts)))))"

subsection \<open>handle\_disconnect\<close>

fun remove_player :: "nat \<Rightarrow> player list \<Rightarrow> player list" where
  "remove_player c [] = []"
| "remove_player c (p # ps) = (if sock p = c then ps else p # remove_player c ps)"

definition send :: "nat \<Rightarrow> msg \<Rightarrow> state \<Rightarrow> state" where
  "send p m s = s\<lparr>trace := trace s @ [Send p m]\<rparr>"

text \<open>
  Lines 175-182. It is a method of ConnectionManager; nothing in the source calls it on a
  ConnectionManager.
\<close>

definition handle_disconnect :: "nat \<Rightarrow> state \<Rightarrow> state" where
  "handle_disconnect current s =
     (let s1 = s\<lparr>players := remove_player current (players s)\<rparr>
      in case players s1 of
           [lone] \<Rightarrow> (send (sock lone) (WINNER (name lone)) s1)\<lparr>end_event := True\<rparr>
         | _ \<Rightarrow> s1)"

section \<open>GameHost\<close>

subsection \<open>Python helpers\<close>

definition is_digit_char :: "char \<Rightarrow> bool" where
  "is_digit_char c = ((48::nat) \<le> of_char c \<and> of_char c \<le> (57::nat))"

definition isdigit :: "string \<Rightarrow> bool" where
  "isdigit t = (t \<noteq> [] \<and> list_all is_digit_char t)"

text \<open>\<^verbatim>\<open>int(t)\<close> for a text that \<^verbatim>\<open>isdigit\<close> accepts.\<close>

definition int_of_digits :: "string \<Rightarrow> int" where
  "int_of_digits t = foldl (\<lambda>n c. 10 * n + (int (of_char c) - 48)) 0 t"

text \<open>\<^verbatim>\<open>list.remove(x)\<close>: the first equal element goes; None is the ValueError.\<close>

fun list_remove :: "'a \<Rightarrow> 'a list \<Rightarrow> 'a list option" where
  "list_remove x [] = None"
| "list_remove x (y # ys) =
     (if y = x then Some ys else map_option ((#) y) (list_remove x ys))"

text \<open>
  Lines 396-398: each character of the guess is removed from the hand and appended to the
  discard pile. The flag is False when a removal raised; the hand and the pile are then as
  the loop left them.
\<close>

fun discard_guess :: "string \<Rightarrow> string list \<Rightarrow> string list \<Rightarrow> bool \<times> string list \<times> string list" where
  "discard_guess [] hand pile = (True, hand, pile)"
| "discard_guess (d # ds) hand pile =
     (case list_remove [d] hand of
        None \<Rightarrow> (False, hand, pile)
      | Some hand' \<Rightarrow> discard_guess ds hand' (pile @ [[d]]))"

text \<open>
  Modelled from the spec: \<^verbatim>\<open>ToolCard.pos\<close> is in package.game, which the source does not
  hold. The spec says it reveals the opponent's digit at the 1-based position; a position
  outside the answer is the IndexError of a list read.
\<close>

definition ToolCard_pos :: "string list \<Rightarrow> int \<Rightarrow> string option" where
  "ToolCard_pos ans p =
     (if 1 \<le> p \<and> p \<le> int (length ans) then Some (ans ! nat (p - 1)) else None)"

subsection \<open>The engine's control points\<close>

datatype ending = Aborted | LoneWinner | Win | Draw | Crashed error

text \<open>
  run\_game waits in \<^verbatim>\<open>start_event.wait()\<close> and in the four kinds of
  \<^verbatim>\<open>cmd_queue.get()\<close>: the TOOL prompt of player \<open>idx\<close> in round \<open>k\<close> (line 281), the
  first POS read (line 309, flag True) and the later ones (line 330, flag False), and the
  GUESS prompt (line 381) with the number of iterations of the guess loop still to run, this
  one included. \<open>DONE\<close> is a return or an exception leaving run\_game.
\<close>

datatype pc =
    WAIT_START
  | TOOL_PHASE int nat
  | POS_SUBPROMPT int nat bool
  | GUESS_PHASE int nat nat
  | DONE ending

definition upd_player :: "nat \<Rightarrow> (player \<Rightarrow> player) \<Rightarrow> state \<Rightarrow> state" where
  "upd_player idx f s = s\<lparr>players := (players s)[idx := f (players s ! idx)]\<rparr>"

definition opponent_index :: "nat \<Rightarrow> state \<Rightarrow> nat" where
  "opponent_index idx s = (idx + 1) mod length (players s)"

text \<open>
  Lines 193-205. \<^verbatim>\<open>send_to\<close> lets no exception out, so \<open>dead\<close> stays empty and every
  player of the roster is sent the message.
\<close>

definition broadcast :: "msg \<Rightarrow> state \<Rightarrow> state" where
  "broadcast m s = s\<lparr>trace := trace s @ map (\<lambda>p. Send (sock p) m) (players s)\<rparr>"

text \<open>Lines 207-215.\<close>

definition reset_turn :: "state \<Rightarrow> state" where
  "reset_turn s =
     s\<lparr>trace := trace s @ map (\<lambda>p. Close (sock p)) (players s),
       players := [], start_event := False\<rparr>"

text \<open>
  \<^verbatim>\<open>self.handle_disconnect(current)\<close> in run\_game: \<open>self\<close> is the GameHost, whose class
  defines no such method (it is ConnectionManager's), so the call raises AttributeError.
\<close>

definition host_handle_disconnect :: "state \<Rightarrow> pc \<times> state" where
  "host_handle_disconnect s = (DONE (Crashed AttributeError), s)"

text \<open>Lines 311-316, 319-324, 332-337 and 383-388.\<close>

definition opponent_wins :: "nat \<Rightarrow> state \<Rightarrow> pc \<times> state" where
  "opponent_wins idx s =
     (let current = players s ! idx;
          opponent = players s ! opponent_index idx s;
          s1 = send (sock opponent) (WINNER (name opponent)) s;
          s2 = s1\<lparr>players := remove_player (sock current) (players s1)\<rparr>
      in (DONE Aborted, s2\<lparr>end_event := True\<rparr>))"

text \<open>Lines 261-278: the start of a turn, up to the TOOL prompt.\<close>

definition start_turn :: "int \<Rightarrow> nat \<Rightarrow> state \<Rightarrow> pc \<times> state" where
  "start_turn k idx s =
     (let current = players s ! idx;
          s1 = send (sock current) (HAND (number_hand current) (tool_hand current)) s;
          s2 = s1\<lparr>trace := trace s1 @
                 map (\<lambda>p. Send (sock p) (STATUS (name current)))
                   (filter (\<lambda>p. sock p \<noteq> sock current) (players s1))\<rparr>;
          s3 = send (sock current) TOOL s2
      in (TOOL_PHASE k idx, s3))"

text \<open>
  Lines 246-259 and 413-418: the test of the round loop, the lone-player return, the first
  iteration of the turn loop, and the draw after the last round.
\<close>

function round_top :: "int \<Rightarrow> state \<Rightarrow> pc \<times> state" where
  "round_top k s =
     (if k \<le> max_rounds s then
        (if length (players s) = 1 then
           (let lone = players s ! 0
            in (DONE LoneWinner, (send (sock lone) (WINNER (name lone)) s)\<lparr>end_event := True\<rparr>))
         else if 0 \<ge> length (players s) then round_top (k + 1) s
         else start_turn k 0 s)
      else
        (DONE Draw,
         reset_turn (s\<lparr>trace := trace s @ map (\<lambda>p. Send (sock p) DRAW) (players s)\<rparr>)))"
  by pat_completeness auto
termination
  by (relation "measure (\<lambda>(k, s). nat (max_rounds s + 1 - k))") auto

declare round_top.simps [simp del]

text \<open>The end of the turn of player \<open>idx\<close>: the next iteration of the turn loop, or the next round.\<close>

definition next_turn :: "int \<Rightarrow> nat \<Rightarrow> state \<Rightarrow> pc \<times> state" where
  "next_turn k idx s =
     (if idx = 0 then
        (if 1 \<ge> length (players s) then round_top (k + 1) s else start_turn k 1 s)
      else round_top (k + 1) s)"

text \<open>Lines 372-378: the test of the guess loop with \<open>n\<close> iterations left, and the GUESS prompt.\<close>

definition guess_prompt :: "int \<Rightarrow> nat \<Rightarrow> nat \<Rightarrow> state \<Rightarrow> pc \<times> state" where
  "guess_prompt k idx n s =
     (if n = 0 then next_turn k idx s
      else
        (let current = players s ! idx;
             s1 = send (sock current) (HAND (number_hand current) (tool_hand current)) s;
             s2 = send (sock current) (GUESS (number_hand current)) s1
         in (GUESS_PHASE k idx n, s2)))"

subsection \<open>What the engine does with one dequeued event\<close>

text \<open>Lines 295-368: the tool card at index \<open>ci\<close> of the acting player's tool hand is played.\<close>

definition use_tool :: "ext \<Rightarrow> int \<Rightarrow> nat \<Rightarrow> nat \<Rightarrow> state \<Rightarrow> pc \<times> state" where
  "use_tool x k idx ci s =
     (let tool = tool_hand (players s ! idx) ! ci;
          s1 = upd_player idx
                 (\<lambda>p. p\<lparr>tool_hand := take ci (tool_hand p) @ drop (Suc ci) (tool_hand p)\<rparr>) s;
          s2 = s1\<lparr>game := (game s1)\<lparr>discard_tool := discard_tool (game s1) @ [tool]\<rparr>\<rparr>;
          current = players s2 ! idx;
          opponent = players s2 ! opponent_index idx s2;
          s3 = send (sock current) (USED_TOOL tool) s2;
          s4 = send (sock opponent) (OPP_TOOL (name current) tool) s3
      in if tool = ''POS'' then
           (POS_SUBPROMPT k idx True, send (sock opponent) POS s4)
         else if tool = ''SHUFFLE'' then
           (let s5 = upd_player idx (\<lambda>p. p\<lparr>answer := tool_shuffle x (answer p)\<rparr>) s4
            in guess_prompt k idx 1
                 (send (sock current) (SHUFFLE_RESULT (concat (answer (players s5 ! idx)))) s5))
         else if tool = ''EXCLUDE'' then
           guess_prompt k idx 1
             (send (sock current) (EXCLUDE_RESULT (tool_exclude x (answer opponent))) s4)
         else if tool = ''DOUBLE'' then
           guess_prompt k idx 2 (send (sock current) DOUBLE_ACTIVE s4)
         else if tool = ''RESHUFFLE'' then
           (case tool_reshuffle x (number_hand current) (number_deck (game s4)) of
              (hand, deck) \<Rightarrow>
                (let s5 = upd_player idx (\<lambda>p. p\<lparr>number_hand := hand\<rparr>) s4;
                     s6 = s5\<lparr>game := (game s5)\<lparr>number_deck := deck\<rparr>\<rparr>
                 in guess_prompt k idx 1 (send (sock current) RESHUFFLE_DONE s6)))
         else guess_prompt k idx 1 s4)"

text \<open>Lines 280-302 and 370-371: the event read at the TOOL prompt.\<close>

definition tool_step :: "ext \<Rightarrow> int \<Rightarrow> nat \<Rightarrow> get_obs \<Rightarrow> state \<Rightarrow> pc \<times> state" where
  "tool_step x k idx obs s =
     (case obs of
        GetRaised \<Rightarrow> host_handle_disconnect s
      | Got m \<Rightarrow>
          (case map_of m ''type'' of
             None \<Rightarrow> (DONE (Crashed (KeyError ''type'')), s)
           | Some ty \<Rightarrow>
               if ty = ''DISCONNECTED'' then host_handle_disconnect s
               else if ty = ''COMMAND'' then
                 (case map_of m ''data'' of
                    None \<Rightarrow> (DONE (Crashed (KeyError ''data'')), s)
                  | Some d \<Rightarrow>
                      if isdigit d \<and> 0 \<le> int_of_digits d - 1
                           \<and> int_of_digits d - 1 < int (length (tool_hand (players s ! idx)))
                      then use_tool x k idx (nat (int_of_digits d - 1)) s
                      else guess_prompt k idx 1 s)
               else guess_prompt k idx 1 s))"

text \<open>
  Lines 308-348: the event read at a POS read. The first read answers the tag
  \<^verbatim>\<open>DISCONNECTED\<close> in line, the later ones through \<^verbatim>\<open>self.handle_disconnect\<close>.
\<close>

definition pos_step :: "ext \<Rightarrow> int \<Rightarrow> nat \<Rightarrow> bool \<Rightarrow> get_obs \<Rightarrow> state \<Rightarrow> pc \<times> state" where
  "pos_step x k idx first obs s =
     (case obs of
        GetRaised \<Rightarrow> opponent_wins idx s
      | Got m \<Rightarrow>
          (case map_of m ''type'' of
             None \<Rightarrow> (DONE (Crashed (KeyError ''type'')), s)
           | Some ty \<Rightarrow>
               if ty = ''DISCONNECTED'' then
                 (if first then opponent_wins idx s else host_handle_disconnect s)
               else
                 (case map_of m ''data'' of
                    None \<Rightarrow> (DONE (Crashed (KeyError ''data'')), s)
                  | Some pos_str \<Rightarrow>
                      if \<not> (isdigit pos_str \<and> 1 \<le> int_of_digits pos_str
                              \<and> int_of_digits pos_str \<le> NUM_GUESS_DIGITS (game s))
                      then (POS_SUBPROMPT k idx False, send (sock (players s ! idx)) POS s)
                      else
                        (let current = players s ! idx;
                             opponent = players s ! opponent_index idx s;
                             pi = int_of_digits pos_str
                         in case ToolCard_pos (answer opponent) pi of
                              None \<Rightarrow> (DONE (Crashed IndexError), s)
                            | Some digit \<Rightarrow>
                                guess_prompt k idx 1
                                  (send (sock current) (POS_RESULT pi digit) s)))))"

text \<open>Lines 380-411: the event read at the GUESS prompt, with \<open>n\<close> iterations left.\<close>

definition guess_step :: "ext \<Rightarrow> int \<Rightarrow> nat \<Rightarrow> nat \<Rightarrow> get_obs \<Rightarrow> state \<Rightarrow> pc \<times> state" where
  "guess_step x k idx n obs s =
     (case obs of
        GetRaised \<Rightarrow> opponent_wins idx s
      | Got m \<Rightarrow>
          (case map_of m ''type'' of
             None \<Rightarrow> (DONE (Crashed (KeyError ''type'')), s)
           | Some ty \<Rightarrow>
               if ty = ''DISCONNECTED'' then host_handle_disconnect s
               else
                 (case map_of m ''data'' of
                    None \<Rightarrow> (DONE (Crashed (KeyError ''data'')), s)
                  | Some guess \<Rightarrow>
                      (case discard_guess guess (number_hand (players s ! idx))
                              (discard_number (game s)) of
                         (removed, hand, pile) \<Rightarrow>
                           (let s1 = upd_player idx (\<lambda>p. p\<lparr>number_hand := hand\<rparr>) s;
                                s2 = s1\<lparr>game := (game s1)\<lparr>discard_number := pile\<rparr>\<rparr>
                            in if \<not> removed then (DONE (Crashed ValueError), s2)
                               else
                                 (case draw_up x (game s2) (number_hand (players s2 ! idx))
                                         (tool_hand (players s2 ! idx)) of
                                    (g, nums, tools) \<Rightarrow>
                                      (let s3 = upd_player idx
                                                  (\<lambda>p. p\<lparr>number_hand := nums, tool_hand := tools\<rparr>)
                                                  (s2\<lparr>game := g\<rparr>);
                                           current = players s3 ! idx;
                                           opponent = players s3 ! opponent_index idx s3
                                       in case check_guess x (answer opponent)
                                                 (map (\<lambda>c. [c]) guess) of
                                            (a, b) \<Rightarrow>
                                              (let s4 = send (sock current) (RESULT a b) s3;
                                                   s5 = send (sock opponent)
                                                          (OPP_GUESS (name current) guess a b) s4
                                               in if a = NUM_GUESS_DIGITS (game s5) then
                                                    (DONE Win,
                                                     reset_turn
                                                       (broadcast (WINNER (name current)) s5))
                                                  else guess_prompt k idx (n - 1) s5))))))))"

subsection \<open>run\_game\<close>

definition pop_queue :: "nat \<Rightarrow> state \<Rightarrow> state" where
  "pop_queue idx s = upd_player idx (\<lambda>p. p\<lparr>cmd_queue := tl (cmd_queue p)\<rparr>) s"

text \<open>The player whose queue the engine reads at a control point.\<close>

fun acting :: "pc \<Rightarrow> nat option" where
  "acting (TOOL_PHASE k idx) = Some idx"
| "acting (POS_SUBPROMPT k idx first) = Some idx"
| "acting (GUESS_PHASE k idx n) = Some idx"
| "acting WAIT_START = None"
| "acting (DONE e) = None"

text \<open>The engine can go on: it is at a read, and the acting player's queue holds an event.\<close>

definition can_step :: "pc \<times> state \<Rightarrow> bool" where
  "can_step c =
     (case acting (fst c) of
        None \<Rightarrow> False
      | Some idx \<Rightarrow> idx < length (players (snd c)) \<and> cmd_queue (players (snd c) ! idx) \<noteq> [])"

text \<open>One read: the event leaves the queue and the engine runs to its next read or to its end.\<close>

definition step :: "ext \<Rightarrow> pc \<times> state \<Rightarrow> pc \<times> state" where
  "step x c =
     (if \<not> can_step c then c
      else
        (case c of
           (TOOL_PHASE k idx, s) \<Rightarrow>
             tool_step x k idx (hd (cmd_queue (players s ! idx))) (pop_queue idx s)
         | (POS_SUBPROMPT k idx first, s) \<Rightarrow>
             pos_step x k idx first (hd (cmd_queue (players s ! idx))) (pop_queue idx s)
         | (GUESS_PHASE k idx n, s) \<Rightarrow>
             guess_step x k idx n (hd (cmd_queue (players s ! idx))) (pop_queue idx s)
         | _ \<Rightarrow> c))"

text \<open>The events not yet read.\<close>

definition pending :: "state \<Rightarrow> nat" where
  "pending s = sum_list (map (\<lambda>p. length (cmd_queue p)) (players s))"

subsection \<open>The reads end: each one takes an event from a queue\<close>

lemma pending_trace [simp]: "pending (s\<lparr>trace := t\<rparr>) = pending s"
  by (simp add: pending_def)

lemma pending_game [simp]: "pending (s\<lparr>game := g\<rparr>) = pending s"
  by (simp add: pending_def)

lemma pending_end [simp]: "pending (s\<lparr>end_event := b\<rparr>) = pending s"
  by (simp add: pending_def)

lemma pending_send [simp]: "pending (send p m s) = pending s"
  by (simp add: send_def)

lemma pending_broadcast [simp]: "pending (broadcast m s) = pending s"
  by (simp add: broadcast_def)

lemma pending_reset_turn [simp]: "pending (reset_turn s) = 0"
  by (simp add: reset_turn_def pending_def)

lemma pending_upd_player:
  assumes keep: "\<And>p. cmd_queue (f p) = cmd_queue p"
  shows "pending (upd_player idx f s) = pending s"
proof (cases "idx < length (players s)")
  case True
  let ?g = "\<lambda>p. length (cmd_queue p)"
  have "map ?g ((players s)[idx := f (players s ! idx)]) = (map ?g (players s))[idx := ?g (players s ! idx)]"
    by (simp add: map_update keep)
  also have "\<dots> = map ?g (players s)"
    using True by (metis list_update_id nth_map)
  finally show ?thesis by (simp add: pending_def upd_player_def)
next
  case False
  then have "length (players s) \<le> idx" by simp
  then have "(players s)[idx := f (players s ! idx)] = players s"
    by (rule list_update_beyond)
  then show ?thesis by (simp add: pending_def upd_player_def)
qed

lemma pending_pop_queue:
  assumes "idx < length (players s)" and "cmd_queue (players s ! idx) \<noteq> []"
  shows "pending (pop_queue idx s) < pending s"
proof -
  let ?qs = "map (\<lambda>p. length (cmd_queue p)) (players s)"
  have i: "idx < length ?qs" using assms(1) by simp
  have pos: "0 < ?qs ! idx" using assms by simp
  have "?qs ! idx \<in> set ?qs" using i by (rule nth_mem)
  then have le: "?qs ! idx \<le> sum_list ?qs" by (simp add: member_le_sum_list)
  have "pending (pop_queue idx s) = sum_list (?qs[idx := ?qs ! idx - 1])"
    using assms(1) by (simp add: pending_def pop_queue_def upd_player_def map_update)
  also have "\<dots> = sum_list ?qs + (?qs ! idx - 1) - ?qs ! idx"
    using i by (simp only: sum_list_update)
  also have "\<dots> < sum_list ?qs" using pos le by linarith
  finally show ?thesis by (simp add: pending_def)
qed

lemma sum_remove_player:
  "sum_list (map (\<lambda>p. length (cmd_queue p)) (remove_player c ps))
     \<le> sum_list (map (\<lambda>p. length (cmd_queue p)) ps)"
  by (induction ps) auto

lemma pending_remove_player:
  "pending (s\<lparr>players := remove_player c (players s)\<rparr>) \<le> pending s"
  by (simp add: pending_def sum_remove_player)

lemma pending_start_turn [simp]: "pending (snd (start_turn k idx s)) = pending s"
  by (simp add: start_turn_def Let_def)

lemma pending_round_top [simp]: "pending (snd (round_top k s)) \<le> pending s"
proof (induction k s rule: round_top.induct)
  case (1 k s)
  then show ?case by (subst round_top.simps) (simp add: Let_def)
qed

lemma pending_next_turn [simp]: "pending (snd (next_turn k idx s)) \<le> pending s"
  by (simp add: next_turn_def)

lemma pending_guess_prompt [simp]: "pending (snd (guess_prompt k idx n s)) \<le> pending s"
  by (simp add: guess_prompt_def Let_def)

lemma pending_opponent_wins [simp]: "pending (snd (opponent_wins idx s)) \<le> pending s"
proof -
  have "pending ((send p m s)\<lparr>players := remove_player c (players (send p m s))\<rparr>) \<le> pending s"
    for p m c
    using pending_remove_player [where s = "send p m s" and c = c] by simp
  then show ?thesis by (simp add: opponent_wins_def Let_def)
qed

lemma pending_host_handle_disconnect [simp]:
  "pending (snd (host_handle_disconnect s)) = pending s"
  by (simp add: host_handle_disconnect_def)


lemma guess_prompt_le:
  "pending t \<le> pending s \<Longrightarrow> pending (snd (guess_prompt k idx n t)) \<le> pending s"
  by (rule order_trans [OF pending_guess_prompt])

lemma pending_use_tool: "pending (snd (use_tool x k idx ci s)) \<le> pending s"
  unfolding use_tool_def Let_def
  by (simp add: guess_prompt_le pending_upd_player split: prod.splits)

lemma pending_tool_step: "pending (snd (tool_step x k idx obs s)) \<le> pending s"
  unfolding tool_step_def
  by (simp add: pending_use_tool split: get_obs.splits option.splits)

lemma pending_pos_step: "pending (snd (pos_step x k idx first obs s)) \<le> pending s"
  unfolding pos_step_def Let_def
  by (simp add: guess_prompt_le split: get_obs.splits option.splits)

lemma pending_guess_step: "pending (snd (guess_step x k idx n obs s)) \<le> pending s"
  unfolding guess_step_def Let_def
  by (simp add: guess_prompt_le pending_upd_player split: get_obs.splits option.splits prod.splits)

lemma pending_step: "can_step c \<Longrightarrow> pending (snd (step x c)) < pending (snd c)"
proof -
  assume go: "can_step c"
  obtain p s where c: "c = (p, s)" by (cases c)
  from go c obtain idx where a: "acting p = Some idx" and i: "idx < length (players s)"
    and q: "cmd_queue (players s ! idx) \<noteq> []"
    by (auto simp: can_step_def split: option.splits)
  note lt = pending_pop_queue [OF i q]
  show ?thesis
  proof (cases p)
    case (TOOL_PHASE k j)
    with a c go lt show ?thesis
      using pending_tool_step [of x k j "hd (cmd_queue (players s ! j))" "pop_queue j s"]
      by (simp add: step_def)
  next
    case (POS_SUBPROMPT k j f)
    with a c go lt show ?thesis
      using pending_pos_step [of x k j f "hd (cmd_queue (players s ! j))" "pop_queue j s"]
      by (simp add: step_def)
  next
    case (GUESS_PHASE k j n)
    with a c go lt show ?thesis
      using pending_guess_step [of x k j n "hd (cmd_queue (players s ! j))" "pop_queue j s"]
      by (simp add: step_def)
  next
    case WAIT_START
    with a show ?thesis by simp
  next
    case (DONE e)
    with a show ?thesis by simp
  qed
qed

text \<open>run\_game from a control point on, for as long as the queues hold events.\<close>

function drive :: "ext \<Rightarrow> pc \<times> state \<Rightarrow> pc \<times> state" where
  "drive x c = (if can_step c then drive x (step x c) else c)"
  by pat_completeness auto
termination
  by (relation "measure (\<lambda>(x, c). pending (snd c))") (auto simp: pending_step)

declare drive.simps [simp del]

text \<open>Lines 234-241: the Game object is made, and the loop over \<^verbatim>\<open>self.players[1:]\<close> sends hands.\<close>

definition deal :: "ext \<Rightarrow> state \<Rightarrow> state" where
  "deal x s =
     (case new_game x (players s) of
        (g, ps) \<Rightarrow>
          (let s1 = s\<lparr>players := ps, game := g\<rparr>
           in s1\<lparr>trace := trace s1 @
                  map (\<lambda>p. Send (sock p) (HAND (number_hand p) (tool_hand p)))
                    (drop 1 (players s1))\<rparr>))"

text \<open>
  Lines 227-418. The result is where the engine stands when the events given are used up:
  \<open>DONE\<close> when run\_game has returned or raised, a read when it is blocked there,
  \<open>WAIT_START\<close> when the start latch is not set.
\<close>

definition run_game :: "ext \<Rightarrow> state \<Rightarrow> pc \<times> state" where
  "run_game x s =
     (if \<not> start_event s then (WAIT_START, s)
      else
        (let s1 = deal x s;
             s2 = s1\<lparr>max_rounds := MAX_ROUNDS (game s1)\<rparr>
         in drive x (round_top 1 s2)))"

subsection \<open>Names for the statements\<close>

text \<open>The acting player's queue after a read: what was behind the event read.\<close>

definition set_queue :: "nat \<Rightarrow> get_obs list \<Rightarrow> state \<Rightarrow> state" where
  "set_queue idx q s = upd_player idx (\<lambda>p. p\<lparr>cmd_queue := q\<rparr>) s"

text \<open>Line 327: the test a position text passes.\<close>

definition valid_pos :: "state \<Rightarrow> string \<Rightarrow> bool" where
  "valid_pos s t = (isdigit t \<and> 1 \<le> int_of_digits t \<and> int_of_digits t \<le> NUM_GUESS_DIGITS (game s))"

text \<open>A trace that begins, or ends, with the given actions.\<close>

definition starts_with :: "'a list \<Rightarrow> 'a list \<Rightarrow> bool" where
  "starts_with pre xs = (\<exists>later. xs = pre @ later)"

definition ends_with :: "'a list \<Rightarrow> 'a list \<Rightarrow> bool" where
  "ends_with suf xs = (\<exists>pre. xs = pre @ suf)"

text \<open>
  What holds of a run of a game whose roster has the sockets \<open>socks\<close>: while the game goes
  on the roster has these sockets; when it has ended by the win, the roster is empty, the
  start latch is clear and the last actions are the closes of these sockets; when it has
  ended by the draw, the DRAW sends to these sockets come right before the closes.
\<close>

fun closed_out :: "nat list \<Rightarrow> pc \<times> state \<Rightarrow> bool" where
  "closed_out socks (DONE Win, s) =
     (players s = [] \<and> \<not> start_event s \<and> ends_with (map Close socks) (trace s))"
| "closed_out socks (DONE Draw, s) =
     (players s = [] \<and> \<not> start_event s
      \<and> ends_with (map (\<lambda>i. Send i DRAW) socks @ map Close socks) (trace s))"
| "closed_out socks (DONE e, s) = True"
| "closed_out socks (WAIT_START, s) = True"
| "closed_out socks (p, s) = (map sock (players s) = socks)"

section \<open>A concrete game\<close>

text \<open>
  Two connected players and an instance of the game model, for evaluating the definitions
  on concrete inputs: four-digit answers, one round, a scorer that counts the positions
  where guess and answer agree.
\<close>

definition alice :: player where
  "alice = \<lparr>sock = 1, name = ''A'', number_hand = [''1'', ''2'', ''3'', ''4''],
     tool_hand = [''POS'', ''DOUBLE''], answer = [''5'', ''6'', ''7'', ''8''], cmd_queue = []\<rparr>"

definition bob :: player where
  "bob = \<lparr>sock = 2, name = ''B'', number_hand = [''5'', ''6'', ''7'', ''8''],
     tool_hand = [''SHUFFLE'', ''EXCLUDE''], answer = [''1'', ''2'', ''3'', ''4''], cmd_queue = []\<rparr>"

definition demo_game :: game where
  "demo_game = \<lparr>MAX_ROUNDS = 1, NUM_GUESS_DIGITS = 4, number_deck = [],
     discard_number = [], discard_tool = []\<rparr>"

definition demo_ext :: ext where
  "demo_ext = \<lparr>new_game = (\<lambda>ps. (demo_game, ps)),
     draw_up = (\<lambda>g nums tools. (g, nums, tools)),
     check_guess = (\<lambda>ans guess. (int (length (filter (\<lambda>(a, b). a = b) (zip ans guess))), 0)),
     tool_shuffle = rev,
     tool_exclude = (\<lambda>ans. ''0''),
     tool_reshuffle = (\<lambda>hand deck. (hand, deck))\<rparr>"

text \<open>The roster holds both players, the start latch is set, nothing has been sent.\<close>

definition lobby :: "player list \<Rightarrow> state" where
  "lobby ps = \<lparr>players = ps, start_event = True, end_event = False, game = demo_game,
     max_rounds = 1, trace = []\<rparr>"

text \<open>
  Alice skips the tool and guesses Bob's answer; and a game of one round in which both
  skip the tool and guess two digits only.
\<close>

definition win_lobby :: state where
  "win_lobby = lobby [alice\<lparr>cmd_queue := [Got (command_item ''skip''), Got (command_item ''1234'')]\<rparr>, bob]"

definition draw_lobby :: state where
  "draw_lobby = lobby [alice\<lparr>cmd_queue := [Got (command_item ''skip''), Got (command_item ''12'')]\<rparr>,
                       bob\<lparr>cmd_queue := [Got (command_item ''skip''), Got (command_item ''56'')]\<rparr>]"

section \<open>Properties\<close>

lemma serve_forever_full_aux:
  "2 \<le> length (players s) \<Longrightarrow>
     serve_forever new_player cs s =
       (fst (serve_forever new_player cs s), s\<lparr>trace := trace s @ full_notices cs\<rparr>)"
proof (induction cs arbitrary: s)
  case Nil
  then show ?case by simp
next
  case (Cons c cs)
  show ?case
  proof (cases c)
    case AcceptRaised
    then show ?thesis by simp
  next
    case (Accepted k raises)
    let ?s1 = "s\<lparr>trace := trace s @ [Send k FULL]\<rparr>"
    have full: "2 \<le> length (players ?s1)" using Cons.prems by simp
    show ?thesis
    proof (cases raises)
      case True
      with Accepted Cons.prems show ?thesis by simp
    next
      case False
      from Cons.IH [OF full] have
        "snd (serve_forever new_player cs ?s1) = ?s1\<lparr>trace := trace ?s1 @ full_notices cs\<rparr>"
        by (metis snd_conv)
      with Accepted False Cons.prems show ?thesis by (simp add: prod_eq_iff)
    qed
  qed
qed


lemma players_send [simp]: "players (send p m s) = players s"
  by (simp add: send_def)

lemma game_send [simp]: "game (send p m s) = game s"
  by (simp add: send_def)

lemma trace_send [simp]: "trace (send p m s) = trace s @ [Send p m]"
  by (simp add: send_def)

lemma guess_prompt_pos:
  "0 < n \<Longrightarrow> guess_prompt k idx n s =
     (GUESS_PHASE k idx n,
      s\<lparr>trace := trace s @
        [Send (sock (players s ! idx)) (HAND (number_hand (players s ! idx)) (tool_hand (players s ! idx))),
         Send (sock (players s ! idx)) (GUESS (number_hand (players s ! idx)))]\<rparr>)"
  by (simp add: guess_prompt_def send_def Let_def)

lemma players_upd_player [simp]:
  "players (upd_player idx f s) = (players s)[idx := f (players s ! idx)]"
  by (simp add: upd_player_def)

lemma game_upd_player [simp]: "game (upd_player idx f s) = game s"
  by (simp add: upd_player_def)

lemma trace_upd_player [simp]: "trace (upd_player idx f s) = trace s"
  by (simp add: upd_player_def)

lemma use_tool_hand:
  assumes "idx < length (players s)"
  shows "tool_hand (players (snd (use_tool x k idx ci s)) ! idx) =
           take ci (tool_hand (players s ! idx)) @ drop (Suc ci) (tool_hand (players s ! idx))"
  using assms unfolding use_tool_def Let_def
  by (simp add: guess_prompt_pos split: prod.splits)

lemma use_tool_discard:
  "discard_tool (game (snd (use_tool x k idx ci s))) =
     discard_tool (game s) @ [tool_hand (players s ! idx) ! ci]"
  unfolding use_tool_def Let_def
  by (simp add: guess_prompt_pos split: prod.splits)

lemma tool_step_command:
  "tool_step x k idx (Got (command_item t)) s =
     (if isdigit t \<and> 1 \<le> int_of_digits t
          \<and> int_of_digits t \<le> int (length (tool_hand (players s ! idx)))
      then use_tool x k idx (nat (int_of_digits t - 1)) s
      else guess_prompt k idx 1 s)"
  by (auto simp add: tool_step_def command_item_def)

text \<open>
  C6. At the TOOL prompt a COMMAND whose text is a digit string with
  \<open>1 \<le> int text \<le> len(tool_hand)\<close> takes the card at that 1-based index out of the acting
  player's tool hand and appends it to the tool discard pile. Any other COMMAND text (not a
  digit string, or an index outside the tool hand) changes nothing: the engine goes to the
  guess phase with one guess iteration, and all it sends is that phase's HAND and GUESS
  lines, no error message.
\<close>

theorem tool_prompt_command:
  assumes "idx < length (players s)"
  shows "if isdigit t \<and> 1 \<le> int_of_digits t
            \<and> int_of_digits t \<le> int (length (tool_hand (players s ! idx)))
         then tool_hand (players (snd (tool_step x k idx (Got (command_item t)) s)) ! idx) =
                take (nat (int_of_digits t - 1)) (tool_hand (players s ! idx)) @
                drop (Suc (nat (int_of_digits t - 1))) (tool_hand (players s ! idx))
              \<and> discard_tool (game (snd (tool_step x k idx (Got (command_item t)) s))) =
                discard_tool (game s) @
                [tool_hand (players s ! idx) ! nat (int_of_digits t - 1)]
         else tool_step x k idx (Got (command_item t)) s =
                (GUESS_PHASE k idx 1,
                 s\<lparr>trace := trace s @
                   [Send (sock (players s ! idx))
                      (HAND (number_hand (players s ! idx)) (tool_hand (players s ! idx))),
                    Send (sock (players s ! idx)) (GUESS (number_hand (players s ! idx)))]\<rparr>)"
  using assms
  by (simp only: tool_step_command use_tool_hand use_tool_discard guess_prompt_pos [OF zero_less_one] if_True if_False split: if_split) simp

lemma lobby_simps [simp]:
  "players (lobby ps) = ps" "trace (lobby ps) = []" "game (lobby ps) = demo_game"
  "start_event (lobby ps)" "\<not> end_event (lobby ps)"
  by (simp_all add: lobby_def)

text \<open>
  The example of the spec: the text 9 with a tool hand of two cards is no tool used; the
  text 2 plays the second card.
\<close>

theorem tool_prompt_command_witness:
  "0 < length (players (lobby [alice, bob])) \<and>
   tool_step demo_ext 1 0 (Got (command_item ''9'')) (lobby [alice, bob]) =
     (GUESS_PHASE 1 0 1,
      (lobby [alice, bob])\<lparr>trace :=
         [Send 1 (HAND [''1'', ''2'', ''3'', ''4''] [''POS'', ''DOUBLE'']),
          Send 1 (GUESS [''1'', ''2'', ''3'', ''4''])]\<rparr>) \<and>
   tool_hand (players (snd (tool_step demo_ext 1 0 (Got (command_item ''2'')) (lobby [alice, bob]))) ! 0)
     = [''POS''] \<and>
   discard_tool (game (snd (tool_step demo_ext 1 0 (Got (command_item ''2'')) (lobby [alice, bob]))))
     = [''DOUBLE'']"
proof -
  have len: "0 < length (players (lobby [alice, bob]))" by simp
  have nine: "isdigit ''9'' \<and> int_of_digits ''9'' = 9"
    by (simp add: isdigit_def int_of_digits_def is_digit_char_def)
  have two: "isdigit ''2'' \<and> int_of_digits ''2'' = 2"
    by (simp add: isdigit_def int_of_digits_def is_digit_char_def)
  show ?thesis
    using len nine two
      tool_prompt_command [OF len, of "''9''" demo_ext 1]
      tool_prompt_command [OF len, of "''2''" demo_ext 1]
    by (simp add: alice_def demo_game_def)
qed

text \<open>
  C3, as the code has it. When a connection arrives while the roster holds two players (or
  more), the loop sends FULL on the new socket and goes on (or dies, when that send raises);
  the roster, the latches and the game are as before, no task is spawned, and all that a run
  of connections arriving at a full roster adds to the trace is one FULL per socket. The
  loop does not close the rejected socket.
\<close>

theorem full_roster_rejects:
  assumes "2 \<le> length (players s)"
  shows "snd (serve_forever new_player (Accepted c raises # cs) s) =
           s\<lparr>trace := trace s @ Send c FULL # (if raises then [] else full_notices cs)\<rparr>"
proof -
  have "snd (serve_forever new_player (Accepted c raises # cs) s) =
          s\<lparr>trace := trace s @ full_notices (Accepted c raises # cs)\<rparr>"
    using serve_forever_full_aux [OF assms, of new_player "Accepted c raises # cs"]
    by (metis snd_conv)
  then show ?thesis by simp
qed

theorem full_roster_rejects_witness:
  "2 \<le> length (players (lobby [alice, bob])) \<and>
   snd (serve_forever (\<lambda>n. alice) [Accepted 3 False, Accepted 4 False] (lobby [alice, bob])) =
     (lobby [alice, bob])\<lparr>trace := [Send 3 FULL, Send 4 FULL]\<rparr>"
proof -
  have full: "2 \<le> length (players (lobby [alice, bob]))" by (simp add: lobby_def)
  show ?thesis
    using full full_roster_rejects [OF full, of "\<lambda>n. alice" 3 False "[Accepted 4 False]"]
    by (simp add: lobby_def)
qed

text \<open>C3 as stated fails: the third socket is sent FULL and is never closed.\<close>

theorem full_roster_no_close:
  "trace (snd (serve_forever (\<lambda>n. alice) [Accepted 3 False] (lobby [alice, bob]))) = [Send 3 FULL] \<and>
   Close 3 \<notin> set (trace (snd (serve_forever (\<lambda>n. alice) [Accepted 3 False] (lobby [alice, bob]))))"
  by (simp add: lobby_def)


lemma pop_queue_Cons:
  "cmd_queue (players s ! idx) = ob # q \<Longrightarrow> pop_queue idx s = set_queue idx q s"
  by (simp add: pop_queue_def set_queue_def upd_player_def)

lemma step_tool:
  "idx < length (players s) \<Longrightarrow> cmd_queue (players s ! idx) = ob # q \<Longrightarrow>
     step x (TOOL_PHASE k idx, s) = tool_step x k idx ob (set_queue idx q s)"
  by (simp add: step_def can_step_def pop_queue_Cons)

lemma step_pos:
  "idx < length (players s) \<Longrightarrow> cmd_queue (players s ! idx) = ob # q \<Longrightarrow>
     step x (POS_SUBPROMPT k idx f, s) = pos_step x k idx f ob (set_queue idx q s)"
  by (simp add: step_def can_step_def pop_queue_Cons)

lemma step_guess:
  "idx < length (players s) \<Longrightarrow> cmd_queue (players s ! idx) = ob # q \<Longrightarrow>
     step x (GUESS_PHASE k idx n, s) = guess_step x k idx n ob (set_queue idx q s)"
  by (simp add: step_def can_step_def pop_queue_Cons)

lemma pos_step_bad:
  "\<not> valid_pos s t \<Longrightarrow>
     pos_step x k idx f (Got (command_item t)) s =
       (POS_SUBPROMPT k idx False, send (sock (players s ! idx)) POS s)"
  by (simp add: pos_step_def command_item_def valid_pos_def)

lemma pos_step_good:
  "valid_pos s t \<Longrightarrow>
     ToolCard_pos (answer (players s ! opponent_index idx s)) (int_of_digits t) = Some d \<Longrightarrow>
     pos_step x k idx f (Got (command_item t)) s =
       guess_prompt k idx 1 (send (sock (players s ! idx)) (POS_RESULT (int_of_digits t) d) s)"
  by (simp add: pos_step_def command_item_def valid_pos_def Let_def)


lemma set_queue_simps [simp]:
  "players (set_queue idx q s) = (players s)[idx := (players s ! idx)\<lparr>cmd_queue := q\<rparr>]"
  "game (set_queue idx q s) = game s"
  "trace (set_queue idx q s) = trace s"
  by (simp_all add: set_queue_def)

lemma opponent_index_set_queue [simp]:
  "opponent_index idx (set_queue j q s) = opponent_index idx s"
  by (simp add: opponent_index_def)

lemma opponent_index_send [simp]: "opponent_index idx (send p m s) = opponent_index idx s"
  by (simp add: opponent_index_def)

lemma valid_pos_set_queue [simp]: "valid_pos (set_queue j q s) = valid_pos s"
  by (simp add: valid_pos_def fun_eq_iff)

lemma valid_pos_send [simp]: "valid_pos (send p m s) = valid_pos s"
  by (simp add: valid_pos_def fun_eq_iff)

lemma nth_set_queue_fields [simp]:
  "idx < length (players s) \<Longrightarrow> sock ((players s)[idx := (players s ! idx)\<lparr>cmd_queue := q\<rparr>] ! j) = sock (players s ! j)"
  "idx < length (players s) \<Longrightarrow> answer ((players s)[idx := (players s ! idx)\<lparr>cmd_queue := q\<rparr>] ! j) = answer (players s ! j)"
  by (simp_all add: nth_list_update)

lemma set_queue_trace [simp]:
  "set_queue idx q (s\<lparr>trace := tr\<rparr>) = (set_queue idx q s)\<lparr>trace := tr\<rparr>"
  by (simp add: set_queue_def upd_player_def)

lemma set_queue_set_queue [simp]:
  "set_queue idx q (set_queue idx q' s) = set_queue idx q s"
proof (cases "idx < length (players s)")
  case True
  then show ?thesis by (simp add: set_queue_def upd_player_def)
next
  case False
  then have "length (players s) \<le> idx" by simp
  then show ?thesis by (simp add: set_queue_def upd_player_def list_update_beyond)
qed

lemma pos_loop:
  assumes "idx < length (players t)"
    and "cmd_queue (players t ! idx) = map (\<lambda>b. Got (command_item b)) bad @ Got (command_item good) # rest"
    and "list_all (\<lambda>b. \<not> valid_pos t b) bad"
    and "valid_pos t good"
    and "ToolCard_pos (answer (players t ! opponent_index idx t)) (int_of_digits good) = Some d"
  shows "(step x ^^ Suc (length bad)) (POS_SUBPROMPT k idx f, t) =
           guess_prompt k idx 1
             ((set_queue idx rest t)\<lparr>trace := trace t @
                replicate (length bad) (Send (sock (players t ! idx)) POS) @
                [Send (sock (players t ! idx)) (POS_RESULT (int_of_digits good) d)]\<rparr>)"
  using assms
proof (induction bad arbitrary: t f)
  case Nil
  then have q: "cmd_queue (players t ! idx) = Got (command_item good) # rest" by simp
  have "step x (POS_SUBPROMPT k idx f, t) =
          pos_step x k idx f (Got (command_item good)) (set_queue idx rest t)"
    using Nil.prems(1) q by (rule step_pos)
  also have "\<dots> = guess_prompt k idx 1
       (send (sock (players (set_queue idx rest t) ! idx)) (POS_RESULT (int_of_digits good) d)
          (set_queue idx rest t))"
    using Nil.prems by (intro pos_step_good) simp_all
  finally show ?case using Nil.prems(1) by (simp add: send_def)
next
  case (Cons b bs)
  let ?q = "map (\<lambda>b. Got (command_item b)) bs @ Got (command_item good) # rest"
  let ?c = "sock (players t ! idx)"
  let ?t' = "send ?c POS (set_queue idx ?q t)"
  have q: "cmd_queue (players t ! idx) = Got (command_item b) # ?q"
    using Cons.prems(2) by simp
  have bad: "\<not> valid_pos t b" and rest_bad: "list_all (\<lambda>b. \<not> valid_pos t b) bs"
    using Cons.prems(3) by simp_all
  have "step x (POS_SUBPROMPT k idx f, t) =
          pos_step x k idx f (Got (command_item b)) (set_queue idx ?q t)"
    using Cons.prems(1) q by (rule step_pos)
  also have "\<dots> = (POS_SUBPROMPT k idx False, ?t')"
    using bad Cons.prems(1) by (simp add: pos_step_bad)
  finally have one: "step x (POS_SUBPROMPT k idx f, t) = (POS_SUBPROMPT k idx False, ?t')" .
  have ih: "(step x ^^ Suc (length bs)) (POS_SUBPROMPT k idx False, ?t') =
           guess_prompt k idx 1
             ((set_queue idx rest ?t')\<lparr>trace := trace ?t' @
                replicate (length bs) (Send (sock (players ?t' ! idx)) POS) @
                [Send (sock (players ?t' ! idx)) (POS_RESULT (int_of_digits good) d)]\<rparr>)"
    using Cons.prems(1,4,5) rest_bad by (intro Cons.IH) simp_all
  have "(step x ^^ Suc (length (b # bs))) (POS_SUBPROMPT k idx f, t) =
          (step x ^^ Suc (length bs)) (step x (POS_SUBPROMPT k idx f, t))"
    by (simp only: length_Cons funpow_Suc_right o_apply)
  also have "\<dots> = (step x ^^ Suc (length bs)) (POS_SUBPROMPT k idx False, ?t')"
    by (simp only: one)
  also note ih
  finally show ?case
    using Cons.prems(1) by (simp add: send_def replicate_app_Cons_same)
qed


lemma use_tool_POS:
  assumes "idx < length (players s)" and "tool_hand (players s ! idx) ! ci = ''POS''"
  shows "use_tool x k idx ci s =
     (POS_SUBPROMPT k idx True,
      s\<lparr>players := (players s)[idx := (players s ! idx)
           \<lparr>tool_hand := take ci (tool_hand (players s ! idx)) @
                          drop (Suc ci) (tool_hand (players s ! idx))\<rparr>],
        game := (game s)\<lparr>discard_tool := discard_tool (game s) @ [''POS'']\<rparr>,
        trace := trace s @
          [Send (sock (players s ! idx)) (USED_TOOL ''POS''),
           Send (sock (players s ! opponent_index idx s))
             (OPP_TOOL (name (players s ! idx)) ''POS''),
           Send (sock (players s ! opponent_index idx s)) POS]\<rparr>)"
  using assms unfolding use_tool_def Let_def
  by (simp add: send_def upd_player_def opponent_index_def nth_list_update)

text \<open>
  C7. The acting player \<open>cur\<close> plays the POS card (the TOOL read yields its 1-based index
  \<open>ti\<close>), then sends position texts: \<open>bad\<close>, none of them a digit string within
  \<open>1..NUM_GUESS_DIGITS\<close>, then \<open>good\<close>, which is one. The engine takes the card into the
  discard pile, tells both players (USED\_TOOL, OPP\_TOOL) and sends the opponent a POS
  line; for each text of \<open>bad\<close> it sends the acting player a POS prompt and changes nothing
  else; on \<open>good\<close> it sends the acting player POS\_RESULT with the position and the
  opponent's answer digit at that 1-based position, and goes to the guess phase with one
  iteration. No number hand and no answer changes.
\<close>

theorem pos_tool_reprompts:
  assumes "idx < length (players s)"
    and "cur = players s ! idx"
    and "opp = players s ! opponent_index idx s"
    and "isdigit ti" and "1 \<le> int_of_digits ti"
    and "int_of_digits ti \<le> int (length (tool_hand cur))"
    and "ci = nat (int_of_digits ti - 1)"
    and "tool_hand cur ! ci = ''POS''"
    and "cmd_queue cur = Got (command_item ti) #
           map (\<lambda>b. Got (command_item b)) bad @ Got (command_item good) # rest"
    and "list_all (\<lambda>b. \<not> valid_pos s b) bad"
    and "valid_pos s good"
    and "int_of_digits good \<le> int (length (answer opp))"
  shows "(step x ^^ (length bad + 2)) (TOOL_PHASE k idx, s) =
     (GUESS_PHASE k idx 1,
      s\<lparr>players := (players s)[idx := cur
           \<lparr>tool_hand := take ci (tool_hand cur) @ drop (Suc ci) (tool_hand cur),
             cmd_queue := rest\<rparr>],
        game := (game s)\<lparr>discard_tool := discard_tool (game s) @ [''POS'']\<rparr>,
        trace := trace s @
          [Send (sock cur) (USED_TOOL ''POS''),
           Send (sock opp) (OPP_TOOL (name cur) ''POS''),
           Send (sock opp) POS] @
          replicate (length bad) (Send (sock cur) POS) @
          [Send (sock cur) (POS_RESULT (int_of_digits good) (answer opp ! nat (int_of_digits good - 1))),
           Send (sock cur) (HAND (number_hand cur)
              (take ci (tool_hand cur) @ drop (Suc ci) (tool_hand cur))),
           Send (sock cur) (GUESS (number_hand cur))]\<rparr>)"
proof -
  let ?q = "map (\<lambda>b. Got (command_item b)) bad @ Got (command_item good) # rest"
  let ?s0 = "set_queue idx ?q s"
  let ?th = "take ci (tool_hand cur) @ drop (Suc ci) (tool_hand cur)"
  let ?t = "?s0\<lparr>players := (players ?s0)[idx := (players ?s0 ! idx)\<lparr>tool_hand := ?th\<rparr>],
        game := (game s)\<lparr>discard_tool := discard_tool (game s) @ [''POS'']\<rparr>,
        trace := trace s @
          [Send (sock cur) (USED_TOOL ''POS''),
           Send (sock opp) (OPP_TOOL (name cur) ''POS''),
           Send (sock opp) POS]\<rparr>"
  have i0: "idx < length (players ?s0)" using assms(1) by simp
  have cur0: "players ?s0 ! idx = cur\<lparr>cmd_queue := ?q\<rparr>" using assms(1,2) by simp
  have "0 < length (players s)" using assms(1) by (cases "players s") simp_all
  then have oi: "opponent_index idx s < length (players s)"
    unfolding opponent_index_def by (rule mod_less_divisor)
  have opp0: "sock (players ?s0 ! opponent_index idx s) = sock opp"
    using assms(1,3) by simp
  have "step x (TOOL_PHASE k idx, s) = tool_step x k idx (Got (command_item ti)) ?s0"
    using assms(1) assms(9) [unfolded assms(2)] by (rule step_tool)
  also have "\<dots> = use_tool x k idx ci ?s0"
    using assms(4-7) cur0 by (simp add: tool_step_command)
  also have "\<dots> = (POS_SUBPROMPT k idx True, ?t)"
    using i0 assms(8) cur0 opp0 by (subst use_tool_POS) simp_all
  finally have first: "step x (TOOL_PHASE k idx, s) = (POS_SUBPROMPT k idx True, ?t)" .
  have it: "idx < length (players ?t)" using assms(1) by simp
  have qt: "cmd_queue (players ?t ! idx) = ?q" using assms(1) by simp
  have vt: "valid_pos ?t = valid_pos s" by (simp add: valid_pos_def fun_eq_iff)
  have ot: "opponent_index idx ?t = opponent_index idx s" by (simp add: opponent_index_def)
  have at: "answer (players ?t ! opponent_index idx s) = answer opp"
    using assms(1,3) oi by (simp add: nth_list_update)
  have d: "ToolCard_pos (answer (players ?t ! opponent_index idx ?t)) (int_of_digits good) =
             Some (answer opp ! nat (int_of_digits good - 1))"
    unfolding ot at using assms(11,12) by (simp add: ToolCard_pos_def valid_pos_def)
  have loop: "(step x ^^ Suc (length bad)) (POS_SUBPROMPT k idx True, ?t) =
           guess_prompt k idx 1
             ((set_queue idx rest ?t)\<lparr>trace := trace ?t @
                replicate (length bad) (Send (sock (players ?t ! idx)) POS) @
                [Send (sock (players ?t ! idx))
                   (POS_RESULT (int_of_digits good) (answer opp ! nat (int_of_digits good - 1)))]\<rparr>)"
    using it qt assms(10,11) d by (intro pos_loop) (simp_all only: vt)
  have "(step x ^^ (length bad + 2)) (TOOL_PHASE k idx, s) =
          (step x ^^ Suc (length bad)) (step x (TOOL_PHASE k idx, s))"
    by (simp only: add_2_eq_Suc' funpow_Suc_right o_apply)
  also have "\<dots> = (step x ^^ Suc (length bad)) (POS_SUBPROMPT k idx True, ?t)"
    by (simp only: first)
  also note loop
  finally show ?thesis
    using assms(1,2)
    by (simp add: guess_prompt_pos set_queue_def upd_player_def)
qed


text \<open>Alice plays POS, sends x and 9, then 3: Bob's answer is 1234.\<close>

theorem pos_tool_reprompts_witness:
  "(step demo_ext ^^ 4)
     (TOOL_PHASE 1 0,
      lobby [alice\<lparr>cmd_queue := [Got (command_item ''1''), Got (command_item ''x''),
                Got (command_item ''9''), Got (command_item ''3'')]\<rparr>, bob]) =
   (GUESS_PHASE 1 0 1,
    \<lparr>players = [alice\<lparr>tool_hand := [''DOUBLE'']\<rparr>, bob], start_event = True, end_event = False,
      game = demo_game\<lparr>discard_tool := [''POS'']\<rparr>, max_rounds = 1,
      trace = [Send 1 (USED_TOOL ''POS''), Send 2 (OPP_TOOL ''A'' ''POS''), Send 2 POS,
               Send 1 POS, Send 1 POS, Send 1 (POS_RESULT 3 ''3''),
               Send 1 (HAND [''1'', ''2'', ''3'', ''4''] [''DOUBLE'']),
               Send 1 (GUESS [''1'', ''2'', ''3'', ''4''])]\<rparr>)"
proof -
  let ?a = "alice\<lparr>cmd_queue := [Got (command_item ''1''), Got (command_item ''x''),
                Got (command_item ''9''), Got (command_item ''3'')]\<rparr>"
  let ?s = "lobby [?a, bob]"
  have h1: "0 < length (players ?s)" by simp
  have h2: "?a = players ?s ! 0" by simp
  have h3: "bob = players ?s ! opponent_index 0 ?s" by (simp add: opponent_index_def)
  have h4: "isdigit ''1''" by (simp add: isdigit_def is_digit_char_def)
  have h5: "1 \<le> int_of_digits ''1''" by (simp add: int_of_digits_def)
  have h6: "int_of_digits ''1'' \<le> int (length (tool_hand ?a))"
    by (simp add: int_of_digits_def alice_def)
  have h7: "(0::nat) = nat (int_of_digits ''1'' - 1)" by (simp add: int_of_digits_def)
  have h8: "tool_hand ?a ! 0 = ''POS''" by (simp add: alice_def)
  have h9: "cmd_queue ?a = Got (command_item ''1'') #
      map (\<lambda>b. Got (command_item b)) [''x'', ''9''] @ Got (command_item ''3'') # []"
    by simp
  have h10: "list_all (\<lambda>b. \<not> valid_pos ?s b) [''x'', ''9'']"
    by (simp add: valid_pos_def isdigit_def is_digit_char_def int_of_digits_def demo_game_def)
  have h11: "valid_pos ?s ''3''"
    by (simp add: valid_pos_def isdigit_def is_digit_char_def int_of_digits_def demo_game_def)
  have h12: "int_of_digits ''3'' \<le> int (length (answer bob))"
    by (simp add: int_of_digits_def bob_def)
  show ?thesis
    using pos_tool_reprompts [OF h1 h2 h3 h4 h5 h6 h7 h8 h9 h10 h11 h12, of demo_ext 1]
    by (simp add: lobby_def alice_def bob_def demo_game_def int_of_digits_def numeral_eq_Suc)
qed


lemma drive_done [simp]: "drive x (DONE e, s) = (DONE e, s)"
  by (subst drive.simps) (simp add: can_step_def)

lemma drive_wait [simp]: "drive x (WAIT_START, s) = (WAIT_START, s)"
  by (subst drive.simps) (simp add: can_step_def)

lemma drive_step:
  "can_step c \<Longrightarrow> drive x c = drive x (step x c)"
  by (subst drive.simps) simp

lemma map_update_same:
  "i < length xs \<Longrightarrow> f y = f (xs ! i) \<Longrightarrow> map f (xs[i := y]) = map f xs"
  by (simp add: map_update list_update_same_conv)

text \<open>
  C5. In any round \<open>k\<close>, at the GUESS prompt of player \<open>idx\<close>, with any number \<open>n\<close> of
  guess iterations left: when the event read is a COMMAND whose digits all leave the hand
  and whose exact-match count, as check\_guess returns it, equals NUM\_GUESS\_DIGITS, the
  engine sends RESULT and OPP\_GUESS, sends WINNER with the acting player's name to every
  player of the roster, closes every player's socket, empties the roster and returns: the
  run ends there, with no further prompt, turn or round.
\<close>

theorem exact_guess_wins:
  assumes "idx < length (players s)"
    and "cur = players s ! idx"
    and "opp = players s ! opponent_index idx s"
    and "cmd_queue cur = Got (command_item guess) # q"
    and "discard_guess guess (number_hand cur) (discard_number (game s)) = (True, hand, pile)"
    and "draw_up x ((game s)\<lparr>discard_number := pile\<rparr>) hand (tool_hand cur) = (g, nums, tools)"
    and "check_guess x (answer opp) (map (\<lambda>c. [c]) guess) = (a, b)"
    and "a = NUM_GUESS_DIGITS g"
  shows "drive x (GUESS_PHASE k idx n, s) =
     (DONE Win,
      s\<lparr>players := [], start_event := False, game := g,
        trace := trace s @
          [Send (sock cur) (RESULT a b), Send (sock opp) (OPP_GUESS (name cur) guess a b)] @
          map (\<lambda>p. Send (sock p) (WINNER (name cur))) (players s) @
          map (\<lambda>p. Close (sock p)) (players s)\<rparr>)"
proof -
  let ?s0 = "set_queue idx q s"
  let ?cur' = "cur\<lparr>cmd_queue := q, number_hand := nums, tool_hand := tools\<rparr>"
  have "0 < length (players s)" using assms(1) by (cases "players s") simp_all
  then have oi: "opponent_index idx s < length (players s)"
    unfolding opponent_index_def by (rule mod_less_divisor)
  have go: "can_step (GUESS_PHASE k idx n, s)"
    using assms(1,2,4) by (simp add: can_step_def)
  have st: "step x (GUESS_PHASE k idx n, s) =
              guess_step x k idx n (Got (command_item guess)) ?s0"
    using assms(1) assms(4) [unfolded assms(2)] by (rule step_guess)
  have opp_answer: "answer (((players s)[idx := ?cur']) ! opponent_index idx s) = answer opp"
    using assms(1,2,3) oi by (simp add: nth_list_update)
  have opp_sock: "sock (((players s)[idx := ?cur']) ! opponent_index idx s) = sock opp"
    using assms(1,2,3) oi by (simp add: nth_list_update)
  have m1: "map (\<lambda>p. Send (sock p) (WINNER (name cur))) ((players s)[idx := ?cur']) =
            map (\<lambda>p. Send (sock p) (WINNER (name cur))) (players s)"
    using assms(1,2) by (intro map_update_same) simp_all
  have m2: "map (\<lambda>p. Close (sock p)) ((players s)[idx := ?cur']) =
            map (\<lambda>p. Close (sock p)) (players s)"
    using assms(1,2) by (intro map_update_same) simp_all
  have "guess_step x k idx n (Got (command_item guess)) ?s0 =
     (DONE Win,
      s\<lparr>players := [], start_event := False, game := g,
        trace := trace s @
          [Send (sock cur) (RESULT a b), Send (sock opp) (OPP_GUESS (name cur) guess a b)] @
          map (\<lambda>p. Send (sock p) (WINNER (name cur))) (players s) @
          map (\<lambda>p. Close (sock p)) (players s)\<rparr>)"
    using assms(1,5,6,7,8) assms(2) [symmetric] opp_answer opp_sock m1 m2
    by (simp add: guess_step_def command_item_def Let_def upd_player_def set_queue_def
        opponent_index_def send_def broadcast_def reset_turn_def)
  with go st show ?thesis by (simp add: drive_step)
qed


text \<open>Alice guesses 1234 and Bob's answer is 1234.\<close>

theorem exact_guess_wins_witness:
  "drive demo_ext
     (GUESS_PHASE 1 0 1, lobby [alice\<lparr>cmd_queue := [Got (command_item ''1234'')]\<rparr>, bob]) =
   (DONE Win,
    \<lparr>players = [], start_event = False, end_event = False,
      game = demo_game\<lparr>discard_number := [''1'', ''2'', ''3'', ''4'']\<rparr>, max_rounds = 1,
      trace = [Send 1 (RESULT 4 0), Send 2 (OPP_GUESS ''A'' ''1234'' 4 0),
               Send 1 (WINNER ''A''), Send 2 (WINNER ''A''), Close 1, Close 2]\<rparr>)"
proof -
  let ?a = "alice\<lparr>cmd_queue := [Got (command_item ''1234'')]\<rparr>"
  let ?s = "lobby [?a, bob]"
  have h1: "0 < length (players ?s)" by simp
  have h2: "?a = players ?s ! 0" by simp
  have h3: "bob = players ?s ! opponent_index 0 ?s" by (simp add: opponent_index_def)
  have h4: "cmd_queue ?a = Got (command_item ''1234'') # []" by simp
  have h5: "discard_guess ''1234'' (number_hand ?a) (discard_number (game ?s)) =
              (True, [], [''1'', ''2'', ''3'', ''4''])"
    by (simp add: alice_def demo_game_def)
  have h6: "draw_up demo_ext ((game ?s)\<lparr>discard_number := [''1'', ''2'', ''3'', ''4'']\<rparr>) []
              (tool_hand ?a) =
              (demo_game\<lparr>discard_number := [''1'', ''2'', ''3'', ''4'']\<rparr>, [], [''POS'', ''DOUBLE''])"
    by (simp add: demo_ext_def alice_def)
  have h7: "check_guess demo_ext (answer bob) (map (\<lambda>c. [c]) ''1234'') = (4, 0)"
    by (simp add: demo_ext_def bob_def)
  have h8: "(4::int) = NUM_GUESS_DIGITS (demo_game\<lparr>discard_number := [''1'', ''2'', ''3'', ''4'']\<rparr>)"
    by (simp add: demo_game_def)
  show ?thesis
    using exact_guess_wins [OF h1 h2 h3 h4 h5 h6 h7 h8, of 1 1]
    by (simp add: lobby_def alice_def bob_def demo_game_def)
qed

text \<open>The definitions a concrete run unfolds.\<close>

lemmas eval_defs = run_game_def deal_def demo_ext_def lobby_def alice_def bob_def demo_game_def
  start_turn_def send_def can_step_def step_def pop_queue_def upd_player_def
  tool_step_def pos_step_def guess_step_def use_tool_def disconnect_item_def command_item_def
  guess_prompt_def next_turn_def opponent_index_def broadcast_def reset_turn_def
  host_handle_disconnect_def opponent_wins_def isdigit_def is_digit_char_def int_of_digits_def
  ToolCard_pos_def Let_def


text \<open>
  C1 fails on the code. The Reader and the Heartbeat task put a dict whose tag is
  \<^verbatim>\<open>DISCONNECT\<close>; run\_game tests for \<^verbatim>\<open>DISCONNECTED\<close>. Read at the TOOL prompt, the event
  is taken for "no tool" and the engine prompts for a guess; read at a POS read or at the
  GUESS prompt, \<^verbatim>\<open>msg["data"]\<close> raises KeyError. Alice's connection closes at her TOOL
  prompt: Bob is sent no WINNER, the roster keeps both players, the end latch stays clear
  and run\_game is blocked at Alice's GUESS prompt; when a second such event follows (the
  Heartbeat's), run\_game ends by the KeyError.
\<close>

theorem disconnect_event_not_recognised:
  "tool_step x k idx (Got disconnect_item) s = guess_prompt k idx 1 s \<and>
   pos_step x k idx first (Got disconnect_item) s = (DONE (Crashed (KeyError ''data'')), s) \<and>
   guess_step x k idx n (Got disconnect_item) s = (DONE (Crashed (KeyError ''data'')), s) \<and>
   run_game demo_ext (lobby [alice\<lparr>cmd_queue := [Got disconnect_item]\<rparr>, bob]) =
    (GUESS_PHASE 1 0 1,
     \<lparr>players = [alice, bob], start_event = True, end_event = False, game = demo_game,
       max_rounds = 1,
       trace = [Send 2 (HAND [''5'', ''6'', ''7'', ''8''] [''SHUFFLE'', ''EXCLUDE'']),
                Send 1 (HAND [''1'', ''2'', ''3'', ''4''] [''POS'', ''DOUBLE'']),
                Send 2 (STATUS ''A''), Send 1 TOOL,
                Send 1 (HAND [''1'', ''2'', ''3'', ''4''] [''POS'', ''DOUBLE'']),
                Send 1 (GUESS [''1'', ''2'', ''3'', ''4''])]\<rparr>) \<and>
   fst (run_game demo_ext
          (lobby [alice\<lparr>cmd_queue := [Got disconnect_item, Got disconnect_item]\<rparr>, bob])) =
     DONE (Crashed (KeyError ''data''))"
proof -
  have a: "tool_step x k idx (Got disconnect_item) s = guess_prompt k idx 1 s"
    by (simp add: tool_step_def disconnect_item_def)
  have b: "pos_step x k idx first (Got disconnect_item) s = (DONE (Crashed (KeyError ''data'')), s)"
    by (simp add: pos_step_def disconnect_item_def)
  have c: "guess_step x k idx n (Got disconnect_item) s = (DONE (Crashed (KeyError ''data'')), s)"
    by (simp add: guess_step_def disconnect_item_def)
  have d: "run_game demo_ext (lobby [alice\<lparr>cmd_queue := [Got disconnect_item]\<rparr>, bob]) =
    (GUESS_PHASE 1 0 1,
     \<lparr>players = [alice, bob], start_event = True, end_event = False, game = demo_game,
       max_rounds = 1,
       trace = [Send 2 (HAND [''5'', ''6'', ''7'', ''8''] [''SHUFFLE'', ''EXCLUDE'']),
                Send 1 (HAND [''1'', ''2'', ''3'', ''4''] [''POS'', ''DOUBLE'']),
                Send 2 (STATUS ''A''), Send 1 TOOL,
                Send 1 (HAND [''1'', ''2'', ''3'', ''4''] [''POS'', ''DOUBLE'']),
                Send 1 (GUESS [''1'', ''2'', ''3'', ''4''])]\<rparr>)"
    by (simp add: eval_defs round_top.simps drive.simps)
  have e: "fst (run_game demo_ext
          (lobby [alice\<lparr>cmd_queue := [Got disconnect_item, Got disconnect_item]\<rparr>, bob])) =
     DONE (Crashed (KeyError ''data''))"
    by (simp add: eval_defs round_top.simps drive.simps)
  from a b c d e show ?thesis by blast
qed

text \<open>
  C2 fails on the code. Alice holds 1, 2, 3, 4, skips the tool and guesses 5678:
  \<^verbatim>\<open>number_hand.remove\<close> raises ValueError on the first digit, nothing catches it, and
  run\_game ends by that exception. The TOOL and POS prompts test their input; the GUESS
  prompt does not.
\<close>

theorem guess_outside_hand_crashes:
  "run_game demo_ext
     (lobby [alice\<lparr>cmd_queue := [Got (command_item ''skip''), Got (command_item ''5678'')]\<rparr>, bob]) =
    (DONE (Crashed ValueError),
     \<lparr>players = [alice, bob], start_event = True, end_event = False, game = demo_game,
       max_rounds = 1,
       trace = [Send 2 (HAND [''5'', ''6'', ''7'', ''8''] [''SHUFFLE'', ''EXCLUDE'']),
                Send 1 (HAND [''1'', ''2'', ''3'', ''4''] [''POS'', ''DOUBLE'']),
                Send 2 (STATUS ''A''), Send 1 TOOL,
                Send 1 (HAND [''1'', ''2'', ''3'', ''4''] [''POS'', ''DOUBLE'']),
                Send 1 (GUESS [''1'', ''2'', ''3'', ''4''])]\<rparr>)"
  by (simp add: eval_defs round_top.simps drive.simps)

text \<open>
  C8 fails on the code. \<^verbatim>\<open>send_to\<close> lets no exception out, so the branch of the Heartbeat
  task for a failed send is never taken. The send fails with a socket error while an
  acknowledgement is already in the heartbeat queue: the task puts no DISCONNECT event and
  goes on with its loop (here until it sees the end latch), whatever gevent's timeout is.
\<close>

theorem heartbeat_send_failure_not_reported:
  "heartbeat timeout_is_exception 1 [(False, SocketError, Ack)] =
     (Running, [Send 1 HEARTBEAT, Close 1]) \<and>
   heartbeat timeout_is_exception 1 [(False, SocketError, Ack), (True, SendOk, Ack)] =
     (Finished, [Send 1 HEARTBEAT, Close 1, Close 1])"
  by (simp add: send_to_def)


lemma ends_with_append [simp]: "ends_with suf (xs @ suf)"
  by (auto simp: ends_with_def)

lemma ends_with_append2 [simp]: "ends_with (a @ suf) (xs @ a @ suf)"
  by (auto simp: ends_with_def)

lemma ends_with_append3 [simp]: "ends_with suf (xs @ ys @ suf)"
  unfolding ends_with_def by (metis append.assoc)

lemma ends_with_append4 [simp]: "ends_with suf (xs @ y # z # ys @ suf)"
  unfolding ends_with_def by (metis append.assoc append_Cons)

lemma map_sock_update [simp]:
  assumes "sock y = sock (xs ! idx)"
  shows "map sock (xs[idx := y]) = map sock xs"
proof (cases "idx < length xs")
  case True
  have "map sock (xs[idx := y]) = (map sock xs)[idx := sock (xs ! idx)]"
    by (simp add: map_update assms)
  also have "\<dots> = map sock xs"
    using True by (metis list_update_id nth_map)
  finally show ?thesis .
next
  case False
  then have "length xs \<le> idx" by simp
  then have "xs[idx := y] = xs" by (rule list_update_beyond)
  then show ?thesis by simp
qed

lemma map_sock_upd_player:
  assumes "\<And>p. sock (f p) = sock p"
  shows "map sock (players (upd_player idx f s)) = map sock (players s)"
  by (simp add: assms)

lemma map_sock_pop_queue [simp]: "map sock (players (pop_queue idx s)) = map sock (players s)"
  by (simp add: pop_queue_def map_sock_upd_player del: players_upd_player)

lemma send_by_sock: "map (\<lambda>p. Send (sock p) m) ps = map (\<lambda>i. Send i m) (map sock ps)"
  by (simp add: o_def)

lemma close_by_sock: "map (\<lambda>p. Close (sock p)) ps = map Close (map sock ps)"
  by (simp add: o_def)

lemma closed_out_start_turn [simp]:
  "map sock (players s) = socks \<Longrightarrow> closed_out socks (start_turn k idx s)"
  by (simp add: start_turn_def Let_def)

lemma closed_out_round_top_aux: "closed_out (map sock (players s)) (round_top k s)"
proof (induction k s rule: round_top.induct)
  case (1 k s)
  then show ?case
    by (subst round_top.simps)
       (simp add: Let_def reset_turn_def send_by_sock close_by_sock)
qed

lemma closed_out_round_top [simp]:
  "map sock (players s) = socks \<Longrightarrow> closed_out socks (round_top k s)"
  using closed_out_round_top_aux [of s k] by simp

lemma closed_out_next_turn [simp]:
  "map sock (players s) = socks \<Longrightarrow> closed_out socks (next_turn k idx s)"
  by (simp add: next_turn_def)

lemma closed_out_guess_prompt [simp]:
  "map sock (players s) = socks \<Longrightarrow> closed_out socks (guess_prompt k idx n s)"
  by (simp add: guess_prompt_def Let_def)

lemma closed_out_opponent_wins [simp]: "closed_out socks (opponent_wins idx s)"
  by (simp add: opponent_wins_def Let_def)

lemma closed_out_host [simp]: "closed_out socks (host_handle_disconnect s)"
  by (simp add: host_handle_disconnect_def)

lemma closed_out_use_tool [simp]:
  "map sock (players s) = socks \<Longrightarrow> closed_out socks (use_tool x k idx ci s)"
  unfolding use_tool_def Let_def
  by (simp add: map_sock_upd_player del: players_upd_player split: prod.splits)

lemma closed_out_tool_step [simp]:
  "map sock (players s) = socks \<Longrightarrow> closed_out socks (tool_step x k idx ob s)"
  unfolding tool_step_def by (simp split: get_obs.splits option.splits)

lemma closed_out_pos_step [simp]:
  "map sock (players s) = socks \<Longrightarrow> closed_out socks (pos_step x k idx f ob s)"
  unfolding pos_step_def Let_def by (simp split: get_obs.splits option.splits)

lemma closed_out_guess_step [simp]:
  "map sock (players s) = socks \<Longrightarrow> closed_out socks (guess_step x k idx n ob s)"
  unfolding guess_step_def Let_def
  by (simp add: map_sock_upd_player reset_turn_def broadcast_def close_by_sock
      del: players_upd_player split: get_obs.splits option.splits prod.splits)


lemma closed_out_step: "closed_out socks c \<Longrightarrow> closed_out socks (step x c)"
proof -
  assume c: "closed_out socks c"
  obtain p s where ps: "c = (p, s)" by (cases c)
  show ?thesis
  proof (cases "can_step c")
    case False
    with c show ?thesis by (simp add: step_def)
  next
    case True
    with c show ?thesis unfolding ps by (cases p) (simp_all add: step_def can_step_def)
  qed
qed

lemma closed_out_drive: "closed_out socks c \<Longrightarrow> closed_out socks (drive x c)"
proof (induction x c rule: drive.induct)
  case (1 x c)
  show ?case
  proof (cases "can_step c")
    case True
    with 1 show ?thesis by (simp add: drive_step closed_out_step)
  next
    case False
    with 1 show ?thesis by (subst drive.simps) simp
  qed
qed

lemma closed_out_run_game:
  "closed_out (map sock (snd (new_game x (players s)))) (run_game x s)"
  by (simp add: run_game_def deal_def Let_def closed_out_drive split: prod.splits)

lemma accept_after_reset:
  assumes "players s = []" and "\<not> start_event s"
  shows "\<not> start_event (snd (serve_forever np [Accepted c r] s))"
    and "start_event (snd (serve_forever np [Accepted c r, Accepted c' r'] s))"
  using assms by (simp_all add: Let_def)

text \<open>
  C10. Whenever run\_game ends by the exact-match win or by the draw after the last round,
  the last actions of its trace are the closes of the sockets of every player of the
  game's roster (on such a run nobody has left the roster, so these are the remaining
  players), after the DRAW lines when it is the draw; the shared roster is empty and the
  start latch is cleared. The next run\_game waits at the start latch and changes nothing;
  from that state one accepted connection does not set the latch, and two do.
\<close>

theorem game_over_resets:
  assumes "run_game x s = (DONE e, s')" and "e = Win \<or> e = Draw"
  shows "(\<exists>before. trace s' =
            before @ map (\<lambda>p. Close (sock p)) (snd (new_game x (players s))))
         \<and> (e = Draw \<longrightarrow>
              (\<exists>before. trace s' =
                 before @ map (\<lambda>p. Send (sock p) DRAW) (snd (new_game x (players s)))
                        @ map (\<lambda>p. Close (sock p)) (snd (new_game x (players s)))))
         \<and> players s' = [] \<and> \<not> start_event s'
         \<and> run_game x s' = (WAIT_START, s')
         \<and> \<not> start_event (snd (serve_forever np [Accepted c r] s'))
         \<and> start_event (snd (serve_forever np [Accepted c r, Accepted c' r'] s'))"
proof -
  let ?roster = "snd (new_game x (players s))"
  have inv: "closed_out (map sock ?roster) (DONE e, s')"
    using closed_out_run_game [of x s] assms(1) by simp
  have empty: "players s' = []" and off: "\<not> start_event s'"
    using inv assms(2) by auto
  have closes: "\<exists>before. trace s' = before @ map (\<lambda>p. Close (sock p)) ?roster"
  proof (cases "e = Win")
    case True
    with inv show ?thesis by (simp add: ends_with_def close_by_sock)
  next
    case False
    with assms(2) have "e = Draw" by simp
    with inv have "ends_with (map (\<lambda>i. Send i DRAW) (map sock ?roster) @ map Close (map sock ?roster))
                     (trace s')" by simp
    then obtain pre where
      "trace s' = (pre @ map (\<lambda>i. Send i DRAW) (map sock ?roster)) @ map Close (map sock ?roster)"
      by (auto simp: ends_with_def)
    then show ?thesis unfolding close_by_sock by (rule exI)
  qed
  have draws: "e = Draw \<longrightarrow>
              (\<exists>before. trace s' = before @ map (\<lambda>p. Send (sock p) DRAW) ?roster
                        @ map (\<lambda>p. Close (sock p)) ?roster)"
    using inv by (auto simp: ends_with_def close_by_sock send_by_sock)
  from off have again: "run_game x s' = (WAIT_START, s')" by (simp add: run_game_def)
  from closes draws empty off again accept_after_reset [OF empty off] show ?thesis by blast
qed


text \<open>A run that ends by the win and a run that ends by the draw.\<close>

theorem game_over_resets_witness:
  "fst (run_game demo_ext win_lobby) = DONE Win
   \<and> (\<exists>before. trace (snd (run_game demo_ext win_lobby)) = before @ [Close 1, Close 2])
   \<and> fst (run_game demo_ext draw_lobby) = DONE Draw
   \<and> (\<exists>before. trace (snd (run_game demo_ext draw_lobby)) =
         before @ [Send 1 DRAW, Send 2 DRAW, Close 1, Close 2])
   \<and> players (snd (run_game demo_ext draw_lobby)) = []
   \<and> \<not> start_event (snd (run_game demo_ext draw_lobby))
   \<and> run_game demo_ext (snd (run_game demo_ext draw_lobby)) =
       (WAIT_START, snd (run_game demo_ext draw_lobby))"
proof -
  have w: "fst (run_game demo_ext win_lobby) = DONE Win"
    by (simp add: win_lobby_def eval_defs round_top.simps drive.simps)
  have d: "fst (run_game demo_ext draw_lobby) = DONE Draw"
    by (simp add: draw_lobby_def eval_defs round_top.simps drive.simps)
  have w': "run_game demo_ext win_lobby = (DONE Win, snd (run_game demo_ext win_lobby))"
    using w by (simp add: prod_eq_iff)
  have d': "run_game demo_ext draw_lobby = (DONE Draw, snd (run_game demo_ext draw_lobby))"
    using d by (simp add: prod_eq_iff)
  have ew: "Win = Win \<or> Win = Draw" and ed: "Draw = Win \<or> Draw = Draw" by simp_all
  have rw: "snd (new_game demo_ext (players win_lobby)) = players win_lobby"
    and rd: "snd (new_game demo_ext (players draw_lobby)) = players draw_lobby"
    by (simp_all add: demo_ext_def)
  from game_over_resets [OF w' ew] game_over_resets [OF d' ed] w d
  show ?thesis
    unfolding rw rd
    by (simp add: win_lobby_def draw_lobby_def alice_def bob_def)
qed

lemma starts_with_refl [simp]: "starts_with pre pre"
  by (simp add: starts_with_def)

lemma starts_with_append [simp]: "starts_with pre xs \<Longrightarrow> starts_with pre (xs @ ys)"
  by (auto simp: starts_with_def)

lemma trace_pop_queue [simp]: "trace (pop_queue idx s) = trace s"
  by (simp add: pop_queue_def)

lemma sent_start_turn [simp]:
  "starts_with pre (trace s) \<Longrightarrow> starts_with pre (trace (snd (start_turn k idx s)))"
  by (simp add: start_turn_def Let_def)

lemma sent_round_top [simp]:
  "starts_with pre (trace s) \<Longrightarrow> starts_with pre (trace (snd (round_top k s)))"
proof (induction k s rule: round_top.induct)
  case (1 k s)
  then show ?case
    by (subst round_top.simps) (simp add: Let_def reset_turn_def)
qed

lemma sent_next_turn [simp]:
  "starts_with pre (trace s) \<Longrightarrow> starts_with pre (trace (snd (next_turn k idx s)))"
  by (simp add: next_turn_def)

lemma sent_guess_prompt [simp]:
  "starts_with pre (trace s) \<Longrightarrow> starts_with pre (trace (snd (guess_prompt k idx n s)))"
  by (simp add: guess_prompt_def Let_def)

lemma sent_opponent_wins [simp]:
  "starts_with pre (trace s) \<Longrightarrow> starts_with pre (trace (snd (opponent_wins idx s)))"
  by (simp add: opponent_wins_def Let_def)

lemma sent_host [simp]:
  "starts_with pre (trace s) \<Longrightarrow> starts_with pre (trace (snd (host_handle_disconnect s)))"
  by (simp add: host_handle_disconnect_def)

lemma sent_use_tool [simp]:
  "starts_with pre (trace s) \<Longrightarrow> starts_with pre (trace (snd (use_tool x k idx ci s)))"
  unfolding use_tool_def Let_def by (simp split: prod.splits)

lemma sent_tool_step [simp]:
  "starts_with pre (trace s) \<Longrightarrow> starts_with pre (trace (snd (tool_step x k idx ob s)))"
  unfolding tool_step_def by (simp split: get_obs.splits option.splits)

lemma sent_pos_step [simp]:
  "starts_with pre (trace s) \<Longrightarrow> starts_with pre (trace (snd (pos_step x k idx f ob s)))"
  unfolding pos_step_def Let_def by (simp split: get_obs.splits option.splits)

lemma sent_guess_step [simp]:
  "starts_with pre (trace s) \<Longrightarrow> starts_with pre (trace (snd (guess_step x k idx n ob s)))"
  unfolding guess_step_def Let_def
  by (simp add: reset_turn_def broadcast_def split: get_obs.splits option.splits prod.splits)

lemma sent_step:
  "starts_with pre (trace (snd c)) \<Longrightarrow> starts_with pre (trace (snd (step x c)))"
proof -
  assume c: "starts_with pre (trace (snd c))"
  obtain p s where ps: "c = (p, s)" by (cases c)
  show ?thesis
  proof (cases "can_step c")
    case False
    with c show ?thesis by (simp add: step_def)
  next
    case True
    with c show ?thesis unfolding ps by (cases p) (simp_all add: step_def can_step_def)
  qed
qed

lemma sent_drive:
  "starts_with pre (trace (snd c)) \<Longrightarrow> starts_with pre (trace (snd (drive x c)))"
proof (induction x c rule: drive.induct)
  case (1 x c)
  show ?case
  proof (cases "can_step c")
    case True
    with 1 show ?thesis by (simp add: drive_step sent_step)
  next
    case False
    with 1 show ?thesis by (subst drive.simps) simp
  qed
qed

text \<open>
  C4. The start latch is set, the Game object is created and leaves a roster of two
  players, and the game has at least one round. Whatever events follow, the first two
  actions of run\_game are the HAND lines, each with the number hand and the tool hand as
  dealt: to the second player from the loop over \<^verbatim>\<open>self.players[1:]\<close> (line 241), to
  the first player from line 268, which follows with no read in between. So every player
  of the roster is sent the initial hand before the engine reads anything.
\<close>

theorem initial_hands_sent:
  assumes "start_event s"
    and "new_game x (players s) = (g, [a, b])"
    and "1 \<le> MAX_ROUNDS g"
  shows "\<exists>later. trace (snd (run_game x s)) =
           trace s @ [Send (sock b) (HAND (number_hand b) (tool_hand b)),
                      Send (sock a) (HAND (number_hand a) (tool_hand a))] @ later"
proof -
  let ?hands = "trace s @ [Send (sock b) (HAND (number_hand b) (tool_hand b)),
                      Send (sock a) (HAND (number_hand a) (tool_hand a))]"
  let ?s2 = "(deal x s)\<lparr>max_rounds := MAX_ROUNDS (game (deal x s))\<rparr>"
  have dealt: "players ?s2 = [a, b]" "max_rounds ?s2 = MAX_ROUNDS g"
    "trace ?s2 = trace s @ [Send (sock b) (HAND (number_hand b) (tool_hand b))]"
    using assms(2) by (simp_all add: deal_def)
  have "round_top 1 ?s2 = start_turn 1 0 ?s2"
    using assms(3) dealt by (subst round_top.simps) simp
  then have "starts_with ?hands (trace (snd (round_top 1 ?s2)))"
    using dealt by (simp add: start_turn_def Let_def starts_with_def)
  then have "starts_with ?hands (trace (snd (drive x (round_top 1 ?s2))))"
    by (rule sent_drive)
  then show ?thesis
    using assms(1) by (simp add: run_game_def Let_def starts_with_def)
qed

text \<open>Alice and Bob are dealt their hands; Alice then skips the tool.\<close>

theorem initial_hands_sent_witness:
  "\<exists>later. trace (snd (run_game demo_ext
       (lobby [alice\<lparr>cmd_queue := [Got (command_item ''skip'')]\<rparr>, bob]))) =
     [Send 2 (HAND [''5'', ''6'', ''7'', ''8''] [''SHUFFLE'', ''EXCLUDE'']),
      Send 1 (HAND [''1'', ''2'', ''3'', ''4''] [''POS'', ''DOUBLE''])] @ later"
proof -
  let ?a = "alice\<lparr>cmd_queue := [Got (command_item ''skip'')]\<rparr>"
  have h1: "start_event (lobby [?a, bob])" by simp
  have h2: "new_game demo_ext (players (lobby [?a, bob])) = (demo_game, [?a, bob])"
    by (simp add: demo_ext_def)
  have h3: "1 \<le> MAX_ROUNDS demo_game" by (simp add: demo_game_def)
  show ?thesis
    using initial_hands_sent [OF h1 h2 h3] by (simp add: alice_def bob_def)
qed

end
